theory Spec2Isabelle
  imports Main "HOL-Library.Sublist"
begin

section \<open>Python strings\<close>

text \<open>
  A Python \<open>str\<close> is a sequence of Unicode code points, so it is modelled as a list of
  code point numbers. \<open>ustr\<close> embeds an ASCII literal. The two delimiters of
  \<open>_extract_filename\<close> are U+2018 and U+2019, one code point each.
\<close>

type_synonym codepoint = nat

type_synonym pystr = "codepoint list"

definition ustr :: "string \<Rightarrow> pystr" where
  "ustr s = map of_char s"

definition LQUOTE :: codepoint where "LQUOTE = 0x2018"

definition RQUOTE :: codepoint where "RQUOTE = 0x2019"

definition SLASH :: codepoint where "SLASH = 0x2F"

definition NEWLINE :: codepoint where "NEWLINE = 0x0A"

text \<open>
  The character tables of the Python runtime are not part of the repository: which code
  points \<open>str.strip()\<close> treats as whitespace, which ones \<open>\d\<close> accepts, and which
  code points a literal of a pattern compiled with \<open>re.IGNORECASE\<close> accepts. They are
  a parameter of the model.
\<close>

record chartab =
  is_space :: "codepoint \<Rightarrow> bool"
  is_digit :: "codepoint \<Rightarrow> bool"
  caseless :: "codepoint \<Rightarrow> codepoint \<Rightarrow> bool"

text \<open>The tables restricted to ASCII, for evaluating the model on ASCII log lines.\<close>

definition ascii_lower :: "codepoint \<Rightarrow> codepoint" where
  "ascii_lower c = (if 65 \<le> c \<and> c \<le> 90 then c + 32 else c)"

definition ascii_tab :: chartab where
  "ascii_tab = \<lparr> is_space = (\<lambda>c. c = 32 \<or> (9 \<le> c \<and> c \<le> 13) \<or> (28 \<le> c \<and> c \<le> 31)),
                 is_digit = (\<lambda>c. 48 \<le> c \<and> c \<le> 57),
                 caseless = (\<lambda>p c. ascii_lower p = ascii_lower c) \<rparr>"

subsection \<open>\<open>str\<close> methods used by the parser\<close>

definition strip :: "chartab \<Rightarrow> pystr \<Rightarrow> pystr" where
  "strip tab s = rev (dropWhile (is_space tab) (rev (dropWhile (is_space tab) s)))"

definition startswith :: "pystr \<Rightarrow> pystr \<Rightarrow> bool" where
  "startswith s p = prefix p s"

definition contains :: "pystr \<Rightarrow> pystr \<Rightarrow> bool" where
  "contains s p = sublist p s"

text \<open>\<open>s.find(c)\<close> for a one-character \<open>c\<close>: the lowest index, or \<open>-1\<close>.\<close>

fun find_from :: "int \<Rightarrow> codepoint \<Rightarrow> pystr \<Rightarrow> int" where
  "find_from i c [] = -1"
| "find_from i c (x # xs) = (if x = c then i else find_from (i + 1) c xs)"

definition find_str :: "pystr \<Rightarrow> codepoint \<Rightarrow> int" where
  "find_str s c = find_from 0 c s"

text \<open>\<open>s[a:b]\<close>: a negative index counts from the end, and both are clamped to the string.\<close>

definition clamp_index :: "int \<Rightarrow> int \<Rightarrow> int" where
  "clamp_index n i = (if i < 0 then max 0 (n + i) else min n i)"

definition slice :: "pystr \<Rightarrow> int \<Rightarrow> int \<Rightarrow> pystr" where
  "slice s a b =
     (let n = int (length s); lo = clamp_index n a; hi = clamp_index n b
      in take (nat (hi - lo)) (drop (nat lo) s))"

text \<open>\<open>s.split(c)\<close> for a one-character separator: never the empty list.\<close>

fun split_acc :: "codepoint \<Rightarrow> pystr \<Rightarrow> pystr \<Rightarrow> pystr list" where
  "split_acc c acc [] = [rev acc]"
| "split_acc c acc (x # xs) =
     (if x = c then rev acc # split_acc c [] xs else split_acc c (x # acc) xs)"

definition split :: "pystr \<Rightarrow> codepoint \<Rightarrow> pystr list" where
  "split s c = split_acc c [] s"

subsection \<open>Regular expressions\<close>

text \<open>
  The patterns of \<open>LogParser.__init__\<close> use literals, \<open>.\<close>, \<open>\d\<close>, \<open>+\<close>,
  concatenation and alternation. \<open>re_search\<close> is \<open>pattern.search(s)\<close> read as a truth
  value: whether some substring of \<open>s\<close> matches. It is computed with derivatives.
\<close>

datatype atom = Lit codepoint | LitI codepoint | Dot | Digit

datatype re = Null | Eps | Atom atom | Cat re re | Alt re re | Star re

fun atom_ok :: "chartab \<Rightarrow> atom \<Rightarrow> codepoint \<Rightarrow> bool" where
  "atom_ok tab (Lit p) c = (c = p)"
| "atom_ok tab (LitI p) c = caseless tab p c"
| "atom_ok tab Dot c = (c \<noteq> NEWLINE)"
| "atom_ok tab Digit c = is_digit tab c"

definition Plus :: "re \<Rightarrow> re" where
  "Plus r = Cat r (Star r)"

fun lits :: "pystr \<Rightarrow> re" where
  "lits [] = Eps"
| "lits [c] = Atom (Lit c)"
| "lits (c # cs) = Cat (Atom (Lit c)) (lits cs)"

fun litsI :: "pystr \<Rightarrow> re" where
  "litsI [] = Eps"
| "litsI [c] = Atom (LitI c)"
| "litsI (c # cs) = Cat (Atom (LitI c)) (litsI cs)"

fun nullable :: "re \<Rightarrow> bool" where
  "nullable Null = False"
| "nullable Eps = True"
| "nullable (Atom a) = False"
| "nullable (Cat r s) = (nullable r \<and> nullable s)"
| "nullable (Alt r s) = (nullable r \<or> nullable s)"
| "nullable (Star r) = True"

fun cat :: "re \<Rightarrow> re \<Rightarrow> re" where
  "cat Null s = Null"
| "cat Eps s = s"
| "cat r s = Cat r s"

fun alt :: "re \<Rightarrow> re \<Rightarrow> re" where
  "alt Null s = s"
| "alt r Null = r"
| "alt r s = Alt r s"

fun deriv :: "chartab \<Rightarrow> codepoint \<Rightarrow> re \<Rightarrow> re" where
  "deriv tab c Null = Null"
| "deriv tab c Eps = Null"
| "deriv tab c (Atom a) = (if atom_ok tab a c then Eps else Null)"
| "deriv tab c (Cat r s) =
     (if nullable r then alt (cat (deriv tab c r) s) (deriv tab c s)
      else cat (deriv tab c r) s)"
| "deriv tab c (Alt r s) = alt (deriv tab c r) (deriv tab c s)"
| "deriv tab c (Star r) = cat (deriv tab c r) (Star r)"

fun match_prefix :: "chartab \<Rightarrow> re \<Rightarrow> pystr \<Rightarrow> bool" where
  "match_prefix tab r [] = nullable r"
| "match_prefix tab r (c # cs) = (nullable r \<or> match_prefix tab (deriv tab c r) cs)"

fun re_search :: "chartab \<Rightarrow> re \<Rightarrow> pystr \<Rightarrow> bool" where
  "re_search tab r [] = nullable r"
| "re_search tab r (c # cs) = (match_prefix tab r (c # cs) \<or> re_search tab r cs)"

text \<open>The words a pattern matches as a whole.\<close>

definition conc :: "pystr set \<Rightarrow> pystr set \<Rightarrow> pystr set" where
  "conc A B = {u @ v | u v. u \<in> A \<and> v \<in> B}"

definition star :: "pystr set \<Rightarrow> pystr set" where
  "star A = {concat ws | ws. set ws \<subseteq> A}"

fun lang :: "chartab \<Rightarrow> re \<Rightarrow> pystr set" where
  "lang tab Null = {}"
| "lang tab Eps = {[]}"
| "lang tab (Atom a) = {[c] | c. atom_ok tab a c}"
| "lang tab (Cat r s) = conc (lang tab r) (lang tab s)"
| "lang tab (Alt r s) = lang tab r \<union> lang tab s"
| "lang tab (Star r) = star (lang tab r)"

section \<open>utils/parser.py: LogParser\<close>

record parser =
  downloaded_count :: int
  error_count :: int

definition init_parser :: parser where
  "init_parser = \<lparr> downloaded_count = 0, error_count = 0 \<rparr>"

text \<open>\<open>saved_pattern\<close>: a left quote, \<open>.+\<close>, a right quote, \<open> saved [\<close>, digits, \<open>/\<close>,
  digits, \<open>]\<close>.\<close>

definition saved_pattern :: re where
  "saved_pattern =
     Cat (Atom (Lit LQUOTE)) (Cat (Plus (Atom Dot)) (Cat (Atom (Lit RQUOTE))
       (Cat (lits (ustr '' saved ['')) (Cat (Plus (Atom Digit))
         (Cat (Atom (Lit SLASH)) (Cat (Plus (Atom Digit)) (lits (ustr '']''))))))))"

text \<open>\<open>error_pattern\<close>: \<open>(ERROR \d+|failed:|Not Found)\<close>, compiled with \<open>re.IGNORECASE\<close>.\<close>

definition error_pattern :: re where
  "error_pattern =
     Alt (Cat (litsI (ustr ''ERROR '')) (Plus (Atom Digit)))
       (Alt (litsI (ustr ''failed:'')) (litsI (ustr ''Not Found'')))"

text \<open>The \<open>dict\<close> of \<open>_get_stats\<close>, with the keys \<open>files\<close> and \<open>errors\<close>.\<close>

type_synonym stats = "string \<rightharpoonup> int"

definition get_stats :: "parser \<Rightarrow> stats" where
  "get_stats p = [''files'' \<mapsto> downloaded_count p, ''errors'' \<mapsto> error_count p]"

text \<open>
  \<open>_extract_filename\<close>. The \<open>[-1]\<close> of an empty list would raise IndexError, which the
  bare \<open>except\<close> turns into the placeholder.
\<close>

definition extract_filename :: "pystr \<Rightarrow> pystr" where
  "extract_filename line =
     (let start = find_str line LQUOTE; end = find_str line RQUOTE
      in if start \<noteq> -1 \<and> end \<noteq> -1
         then (let full_path = slice line (start + 1) end
               in case split full_path SLASH of
                    [] \<Rightarrow> ustr ''file''
                  | x # xs \<Rightarrow> last (x # xs))
         else ustr ''file'')"

definition process_line :: "chartab \<Rightarrow> pystr \<Rightarrow> parser \<Rightarrow> (pystr \<times> stats) \<times> parser" where
  "process_line tab raw p =
     (let line = strip tab raw
      in if line = [] then (([], get_stats p), p)
         else if re_search tab saved_pattern line then
           (let p' = p\<lparr>downloaded_count := downloaded_count p + 1\<rparr>
            in ((0x2705 # ustr '' FILE SAVED: '' @ extract_filename line @ [NEWLINE],
                 get_stats p'), p'))
         else if re_search tab error_pattern line then
           (let p' = p\<lparr>error_count := error_count p + 1\<rparr>
            in ((0x274C # ustr '' ERROR: '' @ line @ [NEWLINE], get_stats p'), p'))
         else if startswith line (ustr ''Resolving '') then
           ((0x1F504 # ustr '' '' @ line @ [NEWLINE], get_stats p), p)
         else if startswith line (ustr ''Connecting to '') then
           ((0x1F517 # ustr '' '' @ line @ [NEWLINE], get_stats p), p)
         else if contains line (ustr ''200 OK'') then
           (([0x2B07, 0xFE0F] @ ustr ''  Response: 200 OK'' @ [NEWLINE], get_stats p), p)
         else if startswith line (ustr ''Saving to:'') then
           ((0x1F4BE # ustr '' Saving: '' @ extract_filename line @ ustr ''...'' @ [NEWLINE],
             get_stats p), p)
         else ((ustr ''   '' @ line @ [NEWLINE], get_stats p), p))"

definition reset :: "parser \<Rightarrow> parser" where
  "reset p = p\<lparr>downloaded_count := 0, error_count := 0\<rparr>"

text \<open>A classifier instance fed a sequence of lines, one \<open>process_line\<close> call each.\<close>

fun process_lines :: "chartab \<Rightarrow> pystr list \<Rightarrow> parser \<Rightarrow> parser" where
  "process_lines tab [] p = p"
| "process_lines tab (l # ls) p = process_lines tab ls (snd (process_line tab l p))"

section \<open>The library interface\<close>

text \<open>
  The code calls into \<open>pathlib\<close>, \<open>os.path\<close>, \<open>shutil\<close>, \<open>time\<close>,
  \<open>subprocess\<close> and \<open>urllib.parse\<close>. These are not part of the repository, so
  they are a parameter of the model: a record with one function for each call. \<open>'w\<close>
  is the state of the world outside the program (the file system, the child processes,
  the clock) and \<open>'t\<close> is the type of the float time stamps. A call that can raise
  returns the exception as a value; a call that acts on the world returns the new world.
  A path is the string passed to the call; a resolved path (\<open>Path.resolve()\<close>) is the
  list of its components below the root. \<open>poll\<close> only reads the world; the world moves
  on in the calls that block (\<open>readline\<close>, \<open>read\<close>, \<open>wait\<close>).
\<close>

type_synonym path = pystr

type_synonym rpath = "pystr list"

type_synonym handle = nat

text \<open>An exception that \<open>except Exception\<close> catches, with its message:
  \<open>subprocess.TimeoutExpired\<close>, which \<open>stop\<close> tells apart, or any other.\<close>

datatype exn = TimeoutExpired pystr | PyError pystr


record ('w, 't) os =
  resolve :: "'w \<Rightarrow> path \<Rightarrow> exn + rpath"
  path_exists :: "'w \<Rightarrow> path \<Rightarrow> exn + bool"
  path_is_dir :: "'w \<Rightarrow> path \<Rightarrow> exn + bool"
  rmtree :: "path \<Rightarrow> 'w \<Rightarrow> exn option \<times> 'w"
  glob :: "'w \<Rightarrow> path \<Rightarrow> pystr \<Rightarrow> exn + path list"
  stat_mtime :: "'w \<Rightarrow> path \<Rightarrow> exn + 't"
  unlink :: "path \<Rightarrow> 'w \<Rightarrow> exn option \<times> 'w"
  time_now :: "'w \<Rightarrow> 't"
  fsub :: "'t \<Rightarrow> 't \<Rightarrow> 't"
  fgt :: "'t \<Rightarrow> int \<Rightarrow> bool"
  f2int :: "'t \<Rightarrow> int"
  ospath_exists :: "'w \<Rightarrow> path \<Rightarrow> bool"
  ospath_join :: "path \<Rightarrow> path \<Rightarrow> path"
  basename :: "path \<Rightarrow> path"
  dirname :: "path \<Rightarrow> path"
  normpath :: "path \<Rightarrow> path"
  urlparse :: "pystr \<Rightarrow> exn + pystr \<times> pystr"
  popen :: "pystr list \<Rightarrow> 'w \<Rightarrow> exn + handle \<times> 'w"
  readline :: "handle \<Rightarrow> 'w \<Rightarrow> pystr \<times> 'w"
  read_rest :: "handle \<Rightarrow> 'w \<Rightarrow> pystr \<times> 'w"
  poll :: "'w \<Rightarrow> handle \<Rightarrow> int option"
  terminate :: "handle \<Rightarrow> 'w \<Rightarrow> exn option \<times> 'w"
  wait :: "handle \<Rightarrow> nat \<Rightarrow> 'w \<Rightarrow> exn option \<times> 'w"
  kill :: "handle \<Rightarrow> 'w \<Rightarrow> exn option \<times> 'w"
  make_archive :: "path \<Rightarrow> path \<Rightarrow> path \<Rightarrow> 'w \<Rightarrow> (exn + path) \<times> 'w"

subsection \<open>Formatting\<close>






section \<open>utils/file_manager.py: FileManager\<close>

record file_manager =
  root :: path
  temp_dir :: path
  zip_dir :: path

definition new_file_manager :: "('w, 't) os \<Rightarrow> path \<Rightarrow> file_manager" where
  "new_file_manager os base_storage_path =
     \<lparr> root = base_storage_path,
       temp_dir = ospath_join os base_storage_path (ustr ''temp_sites''),
       zip_dir = ospath_join os base_storage_path (ustr ''output_zips'') \<rparr>"

text \<open>What the file manager writes to its logger and to standard output, one
  constructor for each call in the source, with the values the message is formatted from.\<close>

datatype event =
    DeletedExpired path
  | FailedToDelete path exn
  | CleanedUp int
  | CleanupError exn
  | RemovedTempFolder path
  | SecurityWarning path
  | FailedToClear path exn

text \<open>\<open>Path.parents\<close> of a resolved path: its proper ancestors, nearest first, down
  to the root.\<close>

definition parents :: "rpath \<Rightarrow> rpath list" where
  "parents p = map (\<lambda>n. take n p) (rev [0..<length p])"




definition clear_temp_folder :: "('w, 't) os \<Rightarrow> file_manager \<Rightarrow> path \<Rightarrow> 'w \<times> event list
    \<Rightarrow> 'w \<times> event list" where
  "clear_temp_folder os fm path s =
     (let w = fst s; log = snd s
      in case resolve os w (temp_dir fm) of
           Inl e \<Rightarrow> (w, log @ [FailedToClear path e])
         | Inr t \<Rightarrow>
             (case resolve os w path of
                Inl e \<Rightarrow> (w, log @ [FailedToClear path e])
              | Inr p \<Rightarrow>
                  if t \<in> set (parents p) then
                    (case path_exists os w path of
                       Inl e \<Rightarrow> (w, log @ [FailedToClear path e])
                     | Inr False \<Rightarrow> (w, log)
                     | Inr True \<Rightarrow>
                         (case path_is_dir os w path of
                            Inl e \<Rightarrow> (w, log @ [FailedToClear path e])
                          | Inr False \<Rightarrow> (w, log)
                          | Inr True \<Rightarrow>
                              (case rmtree os path w of
                                 (None, w') \<Rightarrow> (w', log @ [RemovedTempFolder path])
                               | (Some e, w') \<Rightarrow> (w', log @ [FailedToClear path e]))))
                  else (w, log @ [SecurityWarning path])))"

section \<open>core/engine.py: WgetEngine\<close>

record engine =
  process :: "handle option"
  current_website_dir :: "path option"



text \<open>\<open>cleanup_partial_files\<close>: the truth value of \<open>current_website_dir\<close> is that of
  an optional string.\<close>

definition cleanup_partial_files :: "('w, 't) os \<Rightarrow> file_manager \<Rightarrow> engine
    \<Rightarrow> 'w \<times> event list \<Rightarrow> 'w \<times> event list" where
  "cleanup_partial_files os fm e s =
     (case current_website_dir e of
        None \<Rightarrow> s
      | Some d \<Rightarrow> if d \<noteq> [] then clear_temp_folder os fm d s else s)"





text \<open>
  \<open>stop\<close>: the exception it raises, if any, and the state after. The \<open>finally\<close>
  clause runs on every way out of the \<open>try\<close>.
\<close>

definition stop_finally :: "('w, 't) os \<Rightarrow> file_manager \<Rightarrow> engine \<Rightarrow> exn option
    \<Rightarrow> 'w \<times> event list \<Rightarrow> exn option \<times> engine \<times> 'w \<times> event list" where
  "stop_finally os fm e raised s =
     (let e' = e\<lparr>process := None\<rparr>
      in (raised, e', cleanup_partial_files os fm e' s))"

definition stop_except :: "('w, 't) os \<Rightarrow> file_manager \<Rightarrow> engine \<Rightarrow> handle \<Rightarrow> exn
    \<Rightarrow> 'w \<times> event list \<Rightarrow> exn option \<times> engine \<times> 'w \<times> event list" where
  "stop_except os fm e h ex s =
     (case ex of
        TimeoutExpired m \<Rightarrow>
          (case kill os h (fst s) of (r, w') \<Rightarrow> stop_finally os fm e r (w', snd s))
      | PyError m \<Rightarrow> stop_finally os fm e (Some ex) s)"

definition stop :: "('w, 't) os \<Rightarrow> file_manager \<Rightarrow> engine \<times> 'w \<times> event list
    \<Rightarrow> exn option \<times> engine \<times> 'w \<times> event list" where
  "stop os fm st =
     (case st of (e, w, log) \<Rightarrow>
        (case process e of
           None \<Rightarrow> (None, st)
         | Some h \<Rightarrow>
             if poll os w h = None then
               (case terminate os h w of
                  (Some ex, w1) \<Rightarrow> stop_except os fm e h ex (w1, log)
                | (None, w1) \<Rightarrow>
                    (case wait os h 2 w1 of
                       (Some ex, w2) \<Rightarrow> stop_except os fm e h ex (w2, log)
                     | (None, w2) \<Rightarrow> stop_finally os fm e None (w2, log)))
             else (None, st)))"

section \<open>core/zipper.py: ZipEngine\<close>


section \<open>app.py: process_download\<close>







subsection \<open>Observations\<close>



section \<open>A simulated system\<close>

text \<open>
  An instance of the library interface for running the model: a file system without
  symbolic links other than dangling ones, whole seconds for time stamps (on whole numbers
  of this size float subtraction is exact), the working directory \<open>/app\<close>, and one child
  process that prints the lines of a script and exits once they have been read.
\<close>

datatype node = Dir int | File int | Dangling

record sim =
  nodes :: "(rpath \<times> node) list"
  clock :: int
  wget_out :: "pystr list"
  wget_rc :: int
  wget_makes :: "rpath list"
  child :: "(pystr list \<times> int) option"
  signals :: "nat list"

fun norm_parts :: "pystr list \<Rightarrow> rpath \<Rightarrow> rpath" where
  "norm_parts [] acc = rev acc"
| "norm_parts (c # cs) acc =
     (if c = [] \<or> c = ustr ''.'' then norm_parts cs acc
      else if c = ustr ''..'' then norm_parts cs (tl acc)
      else norm_parts cs (c # acc))"

definition sim_abs :: "path \<Rightarrow> rpath" where
  "sim_abs p =
     norm_parts (split p SLASH) (if startswith p [SLASH] then [] else [ustr ''app''])"

definition sim_lookup :: "sim \<Rightarrow> path \<Rightarrow> node option" where
  "sim_lookup w p = map_of (nodes w) (sim_abs p)"

definition sim_exists :: "sim \<Rightarrow> path \<Rightarrow> bool" where
  "sim_exists w p = (case sim_lookup w p of None \<Rightarrow> False | Some Dangling \<Rightarrow> False
                     | Some n \<Rightarrow> True)"

definition sim_is_dir :: "sim \<Rightarrow> path \<Rightarrow> bool" where
  "sim_is_dir w p = (case sim_lookup w p of Some (Dir m) \<Rightarrow> True | x \<Rightarrow> False)"

definition sim_remove :: "rpath \<Rightarrow> sim \<Rightarrow> sim" where
  "sim_remove k w = w\<lparr>nodes := filter (\<lambda>kn. fst kn \<noteq> k) (nodes w)\<rparr>"

definition sim_rmtree :: "path \<Rightarrow> sim \<Rightarrow> exn option \<times> sim" where
  "sim_rmtree p w = (None, w\<lparr>nodes := filter (\<lambda>kn. \<not> prefix (sim_abs p) (fst kn)) (nodes w)\<rparr>)"

text \<open>\<open>glob\<close> for a pattern \<open>*X\<close> with a plain \<open>X\<close>: the entries of the directory
  whose name ends with \<open>X\<close>, in the order of the directory.\<close>

definition sim_glob :: "sim \<Rightarrow> path \<Rightarrow> pystr \<Rightarrow> exn + path list" where
  "sim_glob w d pat =
     Inr (map (\<lambda>kn. d @ SLASH # last (fst kn))
            (filter (\<lambda>kn. fst kn \<noteq> [] \<and> butlast (fst kn) = sim_abs d
                           \<and> suffix (tl pat) (last (fst kn))) (nodes w)))"

definition ENOENT :: exn where
  "ENOENT = PyError (ustr ''No such file or directory'')"

definition sim_stat_mtime :: "sim \<Rightarrow> path \<Rightarrow> exn + int" where
  "sim_stat_mtime w p =
     (case sim_lookup w p of
        Some (File m) \<Rightarrow> Inr m | Some (Dir m) \<Rightarrow> Inr m | x \<Rightarrow> Inl ENOENT)"

definition sim_unlink :: "path \<Rightarrow> sim \<Rightarrow> exn option \<times> sim" where
  "sim_unlink p w =
     (case sim_lookup w p of
        None \<Rightarrow> (Some ENOENT, w)
      | Some (Dir m) \<Rightarrow> (Some (PyError (ustr ''Is a directory'')), w)
      | Some n \<Rightarrow> (None, sim_remove (sim_abs p) w))"

text \<open>\<open>posixpath.join\<close> of two, \<open>basename\<close>, \<open>dirname\<close> and \<open>normpath\<close>.\<close>

definition posix_join :: "path \<Rightarrow> path \<Rightarrow> path" where
  "posix_join a b =
     (if startswith b [SLASH] then b
      else if a = [] \<or> last a = SLASH then a @ b
      else a @ SLASH # b)"

definition posix_basename :: "path \<Rightarrow> path" where
  "posix_basename p = (case split p SLASH of [] \<Rightarrow> [] | x # xs \<Rightarrow> last (x # xs))"

definition posix_dirname :: "path \<Rightarrow> path" where
  "posix_dirname p =
     (let head = take (length p - length (posix_basename p)) p
      in if head \<noteq> [] \<and> \<not> list_all (\<lambda>c. c = SLASH) head
         then rev (dropWhile (\<lambda>c. c = SLASH) (rev head)) else head)"

fun norm_comps :: "bool \<Rightarrow> pystr list \<Rightarrow> pystr list \<Rightarrow> pystr list" where
  "norm_comps rooted [] new_comps = rev new_comps"
| "norm_comps rooted (c # comps) new_comps =
     (if c = [] \<or> c = ustr ''.'' then norm_comps rooted comps new_comps
      else if c \<noteq> ustr ''..'' \<or> (\<not> rooted \<and> new_comps = [])
              \<or> (new_comps \<noteq> [] \<and> hd new_comps = ustr ''..'')
      then norm_comps rooted comps (c # new_comps)
      else norm_comps rooted comps (tl new_comps))"

fun join_slash :: "pystr list \<Rightarrow> pystr" where
  "join_slash [] = []"
| "join_slash [x] = x"
| "join_slash (x # xs) = x @ SLASH # join_slash xs"

definition posix_normpath :: "path \<Rightarrow> path" where
  "posix_normpath p =
     (if p = [] then ustr ''.''
      else
        (let initial_slashes =
               (if startswith p [SLASH, SLASH] \<and> \<not> startswith p [SLASH, SLASH, SLASH]
                then 2 else if startswith p [SLASH] then 1 else 0 :: nat);
             q = replicate initial_slashes SLASH
                 @ join_slash (norm_comps (initial_slashes \<noteq> 0) (split p SLASH) [])
         in if q = [] then ustr ''.'' else q))"

text \<open>\<open>urlparse\<close> for a URL of printable ASCII without \<open>;\<close>: an optional scheme up
  to the first \<open>:\<close>, a network location after \<open>//\<close>, and the path up to \<open>?\<close> or
  \<open>#\<close>. It returns the network location and the path.\<close>

definition scheme_char :: "codepoint \<Rightarrow> bool" where
  "scheme_char c = ((97 \<le> c \<and> c \<le> 122) \<or> (65 \<le> c \<and> c \<le> 90) \<or> (48 \<le> c \<and> c \<le> 57)
                    \<or> c = 43 \<or> c = 45 \<or> c = 46)"

definition sim_urlparse :: "pystr \<Rightarrow> exn + pystr \<times> pystr" where
  "sim_urlparse url =
     (let i = find_str url 0x3A;
          rest = (if i > 0 \<and> list_all scheme_char (take (nat i) url)
                  then drop (nat i + 1) url else url);
          stop_at = (\<lambda>c. c = SLASH \<or> c = 0x3F \<or> c = 0x23);
          netloc = (if startswith rest [SLASH, SLASH]
                    then takeWhile (\<lambda>c. \<not> stop_at c) (drop 2 rest) else []);
          rest2 = (if startswith rest [SLASH, SLASH]
                   then dropWhile (\<lambda>c. \<not> stop_at c) (drop 2 rest) else rest)
      in Inr (netloc, takeWhile (\<lambda>c. c \<noteq> 0x3F \<and> c \<noteq> 0x23) rest2))"

definition sim_popen :: "pystr list \<Rightarrow> sim \<Rightarrow> exn + handle \<times> sim" where
  "sim_popen cmd w =
     Inr (1, w\<lparr>nodes := nodes w @ map (\<lambda>d. (d, Dir (clock w))) (wget_makes w),
               child := Some (wget_out w, wget_rc w)\<rparr>)"

definition sim_readline :: "handle \<Rightarrow> sim \<Rightarrow> pystr \<times> sim" where
  "sim_readline h w =
     (case child w of
        Some (l # ls, rc) \<Rightarrow> (l, w\<lparr>child := Some (ls, rc)\<rparr>)
      | x \<Rightarrow> ([], w))"

definition sim_poll :: "sim \<Rightarrow> handle \<Rightarrow> int option" where
  "sim_poll w h = (case child w of Some ([], rc) \<Rightarrow> Some rc | x \<Rightarrow> None)"

definition sim_signal :: "nat \<Rightarrow> handle \<Rightarrow> sim \<Rightarrow> exn option \<times> sim" where
  "sim_signal sig h w =
     (None, w\<lparr>child := (case child w of None \<Rightarrow> None | Some c \<Rightarrow> Some ([], - int sig)),
              signals := signals w @ [sig]\<rparr>)"

definition sim_wait :: "handle \<Rightarrow> nat \<Rightarrow> sim \<Rightarrow> exn option \<times> sim" where
  "sim_wait h timeout w =
     (case sim_poll w h of
        None \<Rightarrow> (Some (TimeoutExpired (ustr ''timed out'')), w)
      | Some rc \<Rightarrow> (None, w))"

definition sim_make_archive :: "path \<Rightarrow> path \<Rightarrow> path \<Rightarrow> sim \<Rightarrow> (exn + path) \<times> sim" where
  "sim_make_archive base_name root_dir base_dir w =
     (Inr (base_name @ ustr ''.zip''),
      w\<lparr>nodes := nodes w @ [(sim_abs (base_name @ ustr ''.zip''), File (clock w))]\<rparr>)"

definition sim_os :: "(sim, int) os" where
  "sim_os =
     \<lparr> resolve = (\<lambda>w p. Inr (sim_abs p)),
       path_exists = (\<lambda>w p. Inr (sim_exists w p)),
       path_is_dir = (\<lambda>w p. Inr (sim_is_dir w p)),
       rmtree = sim_rmtree,
       glob = sim_glob,
       stat_mtime = sim_stat_mtime,
       unlink = sim_unlink,
       time_now = clock,
       fsub = (\<lambda>a b. a - b),
       fgt = (\<lambda>a b. a > b),
       f2int = (\<lambda>a. a),
       ospath_exists = sim_exists,
       ospath_join = posix_join,
       basename = posix_basename,
       dirname = posix_dirname,
       normpath = posix_normpath,
       urlparse = sim_urlparse,
       popen = sim_popen,
       readline = sim_readline,
       read_rest = (\<lambda>h w. ([], w)),
       poll = sim_poll,
       terminate = sim_signal 15,
       wait = sim_wait,
       kill = sim_signal 9,
       make_archive = sim_make_archive \<rparr>"

text \<open>The storage tree of a fresh installation, at time 10000.\<close>

definition STORAGE :: rpath where
  "STORAGE = [ustr ''app'', ustr ''storage'']"

definition fresh :: sim where
  "fresh =
     \<lparr> nodes = [(STORAGE, Dir 0), (STORAGE @ [ustr ''temp_sites''], Dir 0),
                (STORAGE @ [ustr ''output_zips''], Dir 0)],
       clock = 10000, wget_out = [], wget_rc = 0, wget_makes = [], child = None,
       signals = [] \<rparr>"

definition sim_fm :: file_manager where
  "sim_fm = new_file_manager sim_os (ustr ''storage'')"

section \<open>Example inputs\<close>

text \<open>Example log lines.\<close>

definition both_line :: pystr where
  "both_line =
     ustr ''  - '' @ [LQUOTE] @ ustr ''a/Error 404'' @ [RQUOTE] @ ustr '' saved [12/12]  ''"

definition not_found_line :: pystr where
  "not_found_line = ustr ''HTTP request sent, awaiting response... 404 Not Found''"

definition swapped_line :: pystr where
  "swapped_line = RQUOTE # ustr '' '' @ [LQUOTE] @ ustr ''a/b'' @ [RQUOTE] @ ustr '' saved [1/1]''"

text \<open>A path that starts with the text of the temp directory and leaves it.\<close>

definition escape_path :: path where
  "escape_path = ustr ''storage/temp_sites/../output_zips''"


definition TARGET :: path where
  "TARGET = ustr ''storage/temp_sites/example.com''"

definition SITE :: rpath where
  "SITE = STORAGE @ [ustr ''temp_sites'', ustr ''example.com'']"

text \<open>A download of \<open>http://example.com/\<close> that saves one file and exits with 0.\<close>

definition saved_out :: pystr where
  "saved_out = LQUOTE # ustr ''storage/temp_sites/example.com/index.html'' @ [RQUOTE]
      @ ustr '' saved [512/512]'' @ [NEWLINE]"



text \<open>A child that is still running, and the engine that started it.\<close>

definition running :: sim where
  "running = fresh\<lparr>child := Some ([saved_out], 0)\<rparr>"

definition running_engine :: engine where
  "running_engine = \<lparr> process = Some 1, current_website_dir = Some TARGET \<rparr>"















section \<open>Properties of the parser\<close>

subsection \<open>The matcher and the words a pattern matches\<close>

lemma nil_in_star: "[] \<in> star A"
  unfolding star_def by (rule CollectI, rule exI [of _ "[]"]) simp

lemma star_step: "u \<in> A \<Longrightarrow> v \<in> star A \<Longrightarrow> u @ v \<in> star A"
proof -
  assume u: "u \<in> A" and "v \<in> star A"
  then obtain ws where "v = concat ws" and "set ws \<subseteq> A" by (auto simp: star_def)
  then have "u @ v = concat (u # ws)" and "set (u # ws) \<subseteq> A" using u by auto
  then show ?thesis unfolding star_def by blast
qed

lemma star_cons:
  "c # w \<in> star A \<longleftrightarrow> (\<exists>u v. w = u @ v \<and> c # u \<in> A \<and> v \<in> star A)"
proof
  assume "c # w \<in> star A"
  then obtain ws where cw: "c # w = concat ws" and sub: "set ws \<subseteq> A"
    by (auto simp: star_def)
  then show "\<exists>u v. w = u @ v \<and> c # u \<in> A \<and> v \<in> star A"
  proof (induction ws)
    case Nil
    then show ?case by simp
  next
    case (Cons x xs)
    show ?case
    proof (cases x)
      case Nil
      with Cons show ?thesis by simp
    next
      case (Cons y ys)
      with Cons.prems have "y = c" and "w = ys @ concat xs" and "c # ys \<in> A"
        and "set xs \<subseteq> A" by auto
      moreover have "concat xs \<in> star A" using \<open>set xs \<subseteq> A\<close> by (auto simp: star_def)
      ultimately show ?thesis by blast
    qed
  qed
next
  assume "\<exists>u v. w = u @ v \<and> c # u \<in> A \<and> v \<in> star A"
  then obtain u v where "w = u @ v" and "c # u \<in> A" and "v \<in> star A" by blast
  with star_step [of "c # u" A v] show "c # w \<in> star A" by simp
qed

lemma nullable_lang: "nullable r \<longleftrightarrow> [] \<in> lang tab r"
  by (induction r) (auto simp: conc_def nil_in_star)

lemma lang_cat: "lang tab (cat r s) = conc (lang tab r) (lang tab s)"
  by (cases "(r, s)" rule: cat.cases) (auto simp: conc_def)

lemma lang_alt: "lang tab (alt r s) = lang tab r \<union> lang tab s"
  by (cases "(r, s)" rule: alt.cases) auto

lemma conc_cons:
  "c # w \<in> conc A B \<longleftrightarrow>
     (\<exists>u v. w = u @ v \<and> c # u \<in> A \<and> v \<in> B) \<or> ([] \<in> A \<and> c # w \<in> B)"
proof
  assume "c # w \<in> conc A B"
  then obtain x y where xy: "c # w = x @ y" "x \<in> A" "y \<in> B" by (auto simp: conc_def)
  show "(\<exists>u v. w = u @ v \<and> c # u \<in> A \<and> v \<in> B) \<or> ([] \<in> A \<and> c # w \<in> B)"
  proof (cases x)
    case Nil
    with xy show ?thesis by simp
  next
    case (Cons a u)
    with xy have "w = u @ y" "c # u \<in> A" by auto
    with xy(3) show ?thesis by blast
  qed
next
  assume "(\<exists>u v. w = u @ v \<and> c # u \<in> A \<and> v \<in> B) \<or> ([] \<in> A \<and> c # w \<in> B)"
  then show "c # w \<in> conc A B"
  proof
    assume "\<exists>u v. w = u @ v \<and> c # u \<in> A \<and> v \<in> B"
    then obtain u v where "w = u @ v" "c # u \<in> A" "v \<in> B" by blast
    then have "c # w = (c # u) @ v" by simp
    with \<open>c # u \<in> A\<close> \<open>v \<in> B\<close> show ?thesis unfolding conc_def by blast
  next
    assume "[] \<in> A \<and> c # w \<in> B"
    then have "c # w = [] @ (c # w)" "[] \<in> A" "c # w \<in> B" by auto
    then show ?thesis unfolding conc_def by blast
  qed
qed

lemma lang_deriv: "w \<in> lang tab (deriv tab c r) \<longleftrightarrow> c # w \<in> lang tab r"
proof (induction r arbitrary: w)
  case (Cat r s)
  have "w \<in> conc (lang tab (deriv tab c r)) (lang tab s)
      \<longleftrightarrow> (\<exists>u v. w = u @ v \<and> c # u \<in> lang tab r \<and> v \<in> lang tab s)"
    using Cat.IH(1) by (auto simp: conc_def)
  with Cat.IH(2) show ?case
    by (simp add: lang_alt lang_cat conc_cons nullable_lang [of r tab])
next
  case (Star r)
  have "w \<in> conc (lang tab (deriv tab c r)) (star (lang tab r))
      \<longleftrightarrow> (\<exists>u v. w = u @ v \<and> c # u \<in> lang tab r \<and> v \<in> star (lang tab r))"
    using Star.IH by (auto simp: conc_def)
  then show ?case by (simp add: lang_cat star_cons)
qed (auto simp: lang_alt)

lemma match_prefix_lang:
  "match_prefix tab r s \<longleftrightarrow> (\<exists>u v. s = u @ v \<and> u \<in> lang tab r)"
proof (induction s arbitrary: r)
  case Nil
  show ?case by (simp add: nullable_lang [of r tab])
next
  case (Cons c cs)
  have "(\<exists>u v. c # cs = u @ v \<and> u \<in> lang tab r)
      \<longleftrightarrow> [] \<in> lang tab r \<or> (\<exists>u v. cs = u @ v \<and> c # u \<in> lang tab r)"
    by (auto simp: Cons_eq_append_conv)
  with Cons.IH [of "deriv tab c r"] show ?case
    by (simp add: nullable_lang [of r tab] lang_deriv)
qed

text \<open>\<open>re_search\<close> holds exactly when some substring of the line is matched.\<close>

lemma re_search_lang:
  "re_search tab r s \<longleftrightarrow> (\<exists>p m q. s = p @ m @ q \<and> m \<in> lang tab r)"
proof (induction s)
  case Nil
  show ?case by (simp add: nullable_lang [of r tab])
next
  case (Cons c cs)
  have "(\<exists>p m q. c # cs = p @ m @ q \<and> m \<in> lang tab r)
      \<longleftrightarrow> (\<exists>m q. c # cs = m @ q \<and> m \<in> lang tab r)
          \<or> (\<exists>p m q. cs = p @ m @ q \<and> m \<in> lang tab r)"
  proof
    assume "\<exists>p m q. c # cs = p @ m @ q \<and> m \<in> lang tab r"
    then obtain p m q where e: "c # cs = p @ m @ q" and m: "m \<in> lang tab r" by blast
    show "(\<exists>m q. c # cs = m @ q \<and> m \<in> lang tab r)
          \<or> (\<exists>p m q. cs = p @ m @ q \<and> m \<in> lang tab r)"
    proof (cases p)
      case Nil
      with e m show ?thesis by auto
    next
      case (Cons a p')
      with e have "cs = p' @ m @ q" by simp
      with m show ?thesis by blast
    qed
  next
    assume "(\<exists>m q. c # cs = m @ q \<and> m \<in> lang tab r)
          \<or> (\<exists>p m q. cs = p @ m @ q \<and> m \<in> lang tab r)"
    then show "\<exists>p m q. c # cs = p @ m @ q \<and> m \<in> lang tab r"
    proof
      assume "\<exists>m q. c # cs = m @ q \<and> m \<in> lang tab r"
      then obtain m q where "c # cs = [] @ m @ q" "m \<in> lang tab r" by auto
      then show ?thesis by blast
    next
      assume "\<exists>p m q. cs = p @ m @ q \<and> m \<in> lang tab r"
      then obtain p m q where "c # cs = (c # p) @ m @ q" "m \<in> lang tab r" by auto
      then show ?thesis by blast
    qed
  qed
  with Cons.IH show ?case
    by (simp only: re_search.simps match_prefix_lang)
qed

subsection \<open>String operations\<close>

lemma find_from_eq:
  "find_from i c s =
     (if c \<in> set s then i + int (length (takeWhile (\<lambda>x. x \<noteq> c) s)) else -1)"
  by (induction s arbitrary: i) auto

lemma find_str_absent: "c \<notin> set s \<Longrightarrow> find_str s c = -1"
  by (simp add: find_str_def find_from_eq)

lemma find_str_first:
  "c \<notin> set a \<Longrightarrow> find_str (a @ c # b) c = int (length a)"
proof -
  assume "c \<notin> set a"
  then have "takeWhile (\<lambda>x. x \<noteq> c) (a @ c # b) = a"
    by (induction a) auto
  then show ?thesis by (simp add: find_str_def find_from_eq)
qed

lemma find_str_range: "find_str s c = -1 \<or> (0 \<le> find_str s c \<and> find_str s c < int (length s))"
proof (cases "c \<in> set s")
  case True
  then have "length (takeWhile (\<lambda>x. x \<noteq> c) s) < length s"
    by (induction s) auto
  with True show ?thesis by (simp add: find_str_def find_from_eq)
next
  case False
  then show ?thesis by (simp add: find_str_absent)
qed

lemma split_acc_nonempty: "split_acc c acc s \<noteq> []"
  by (induction s arbitrary: acc) auto

lemma last_split_acc:
  "last (split_acc c acc s) =
     (if c \<in> set s then rev (takeWhile (\<lambda>x. x \<noteq> c) (rev s)) else rev acc @ s)"
proof (induction s arbitrary: acc)
  case Nil
  show ?case by simp
next
  case (Cons x xs)
  show ?case
  proof (cases "x = c")
    case True
    then show ?thesis
      using Cons.IH [of "[]"] by (simp add: split_acc_nonempty takeWhile_append)
  next
    case False
    then show ?thesis
      using Cons.IH [of "x # acc"] by (auto simp: takeWhile_append)
  qed
qed

text \<open>The last part of \<open>s.split('/')\<close> is what follows the last \<open>/\<close>.\<close>

lemma last_split: "last (split s c) = rev (takeWhile (\<lambda>x. x \<noteq> c) (rev s))"
proof (cases "c \<in> set s")
  case True
  then show ?thesis by (simp add: split_def last_split_acc)
next
  case False
  then have tw: "takeWhile (\<lambda>x. x \<noteq> c) (rev s) = rev s"
    by (auto simp: takeWhile_eq_all_conv)
  have "last (split s c) = s"
    using False by (simp add: split_def last_split_acc)
  also have "s = rev (takeWhile (\<lambda>x. x \<noteq> c) (rev s))"
    unfolding tw by simp
  finally show ?thesis .
qed

subsection \<open>The parser\<close>

lemmas ev = ustr_def LQUOTE_def RQUOTE_def SLASH_def NEWLINE_def ascii_tab_def ascii_lower_def
  saved_pattern_def error_pattern_def Plus_def

lemmas ev_str = extract_filename_def find_str_def slice_def clamp_index_def split_def Let_def

lemma process_line_files:
  "downloaded_count (snd (process_line tab raw p)) =
     downloaded_count p +
     (if strip tab raw \<noteq> [] \<and> re_search tab saved_pattern (strip tab raw) then 1 else 0)"
  by (simp add: process_line_def Let_def)

lemma process_line_errors:
  "error_count (snd (process_line tab raw p)) =
     error_count p +
     (if strip tab raw \<noteq> [] \<and> \<not> re_search tab saved_pattern (strip tab raw)
         \<and> re_search tab error_pattern (strip tab raw) then 1 else 0)"
  by (simp add: process_line_def Let_def)

lemma process_line_snapshot:
  "snd (fst (process_line tab raw p)) = get_stats (snd (process_line tab raw p))"
  by (simp add: process_line_def Let_def)

text \<open>
  Where a delimiter is absent \<open>_extract_filename\<close> returns the placeholder. Where the
  first left quote stands before the first right quote, it returns what follows the last
  \<open>/\<close> of the text between the two.
\<close>

lemma extract_filename_absent:
  "LQUOTE \<notin> set line \<or> RQUOTE \<notin> set line \<Longrightarrow> extract_filename line = ustr ''file''"
  by (auto simp: extract_filename_def Let_def find_str_absent)

lemma extract_filename_in_order:
  assumes "line = a @ LQUOTE # b @ RQUOTE # d"
    and "LQUOTE \<notin> set a" and "RQUOTE \<notin> set a" and "RQUOTE \<notin> set b"
  shows "extract_filename line = rev (takeWhile (\<lambda>x. x \<noteq> SLASH) (rev b))"
proof -
  have lr: "LQUOTE \<noteq> RQUOTE" by (simp add: LQUOTE_def RQUOTE_def)
  have st: "find_str line LQUOTE = int (length a)"
    unfolding assms(1) using assms(2) by (rule find_str_first)
  have "RQUOTE \<notin> set (a @ LQUOTE # b)" using assms(3,4) lr by auto
  from find_str_first [OF this, of d] have en: "find_str line RQUOTE = int (length a) + 1 + int (length b)"
    unfolding assms(1) by simp
  have sl: "slice line (int (length a) + 1) (int (length a) + 1 + int (length b)) = b"
    unfolding assms(1) by (simp add: slice_def clamp_index_def Let_def nat_add_distrib)
  have "split b SLASH \<noteq> []" by (simp add: split_def split_acc_nonempty)
  then obtain x xs where sp: "split b SLASH = x # xs" by (cases "split b SLASH") auto
  have "extract_filename line = last (split b SLASH)"
    by (simp add: extract_filename_def Let_def st en sl sp)
  then show ?thesis by (simp add: last_split)
qed

lemma match_prefix_Null [simp]: "match_prefix tab Null s = False"
  by (induction s) auto







lemma strip_both_line:
  "strip ascii_tab both_line =
     ustr ''- '' @ [LQUOTE] @ ustr ''a/Error 404'' @ [RQUOTE] @ ustr '' saved [12/12]''"
  by (simp add: both_line_def strip_def ev)

lemma strip_not_found_line: "strip ascii_tab not_found_line = not_found_line"
  by (simp add: not_found_line_def strip_def ev)

text \<open>
  Claim C4. On a line that is not blank after trimming, \<open>process_line\<close> takes the first
  branch that matches, in the order file saved, error, informational, raw. A line that
  matches the saved pattern is reported as a saved file and adds one to
  \<open>downloaded_count\<close> only, whether or not it also holds an error marker; a line that
  matches the error pattern and not the saved pattern is reported as an error and adds
  one to \<open>error_count\<close> only; any other line leaves the parser as it was. No line changes
  both counters.
\<close>

theorem process_line_first_match_wins:
  assumes "strip tab raw = line" and "line \<noteq> []"
  shows "(re_search tab saved_pattern line \<longrightarrow>
            fst (fst (process_line tab raw p)) =
              0x2705 # ustr '' FILE SAVED: '' @ extract_filename line @ [NEWLINE]
          \<and> downloaded_count (snd (process_line tab raw p)) = downloaded_count p + 1
          \<and> error_count (snd (process_line tab raw p)) = error_count p)
       \<and> (\<not> re_search tab saved_pattern line \<and> re_search tab error_pattern line \<longrightarrow>
            fst (fst (process_line tab raw p)) = 0x274C # ustr '' ERROR: '' @ line @ [NEWLINE]
          \<and> downloaded_count (snd (process_line tab raw p)) = downloaded_count p
          \<and> error_count (snd (process_line tab raw p)) = error_count p + 1)
       \<and> (\<not> re_search tab saved_pattern line \<and> \<not> re_search tab error_pattern line \<longrightarrow>
            snd (process_line tab raw p) = p
          \<and> fst (fst (process_line tab raw p)) =
              (if startswith line (ustr ''Resolving '') then
                 0x1F504 # ustr '' '' @ line @ [NEWLINE]
               else if startswith line (ustr ''Connecting to '') then
                 0x1F517 # ustr '' '' @ line @ [NEWLINE]
               else if contains line (ustr ''200 OK'') then
                 [0x2B07, 0xFE0F] @ ustr ''  Response: 200 OK'' @ [NEWLINE]
               else if startswith line (ustr ''Saving to:'') then
                 0x1F4BE # ustr '' Saving: '' @ extract_filename line @ ustr ''...'' @ [NEWLINE]
               else ustr ''   '' @ line @ [NEWLINE]))
       \<and> (downloaded_count (snd (process_line tab raw p)) = downloaded_count p
          \<or> error_count (snd (process_line tab raw p)) = error_count p)"
  using assms by (simp add: process_line_def Let_def)

text \<open>
  The theorem at two lines: one that holds both a saved marker and an error marker, and
  one that holds an error marker only.
\<close>

theorem process_line_first_match_wins_witness:
  "re_search ascii_tab saved_pattern (strip ascii_tab both_line)
   \<and> re_search ascii_tab error_pattern (strip ascii_tab both_line)
   \<and> fst (fst (process_line ascii_tab both_line init_parser)) =
       0x2705 # ustr '' FILE SAVED: Error 404'' @ [NEWLINE]
   \<and> downloaded_count (snd (process_line ascii_tab both_line init_parser)) = 1
   \<and> error_count (snd (process_line ascii_tab both_line init_parser)) = 0
   \<and> fst (fst (process_line ascii_tab not_found_line init_parser)) =
       0x274C # ustr '' ERROR: '' @ not_found_line @ [NEWLINE]
   \<and> downloaded_count (snd (process_line ascii_tab not_found_line init_parser)) = 0
   \<and> error_count (snd (process_line ascii_tab not_found_line init_parser)) = 1"
proof -
  let ?l = "strip ascii_tab both_line"
  have ne: "?l \<noteq> []"
    unfolding strip_both_line by (simp add: ev)
  have saved: "re_search ascii_tab saved_pattern ?l"
    unfolding strip_both_line by (simp add: ev)
  have err: "re_search ascii_tab error_pattern ?l"
    unfolding strip_both_line by (simp add: ev)
  have name: "extract_filename ?l = ustr ''Error 404''"
    unfolding strip_both_line by (simp add: ev ev_str)
  have ne2: "not_found_line \<noteq> []"
    by (simp add: not_found_line_def ev)
  have nsaved2: "\<not> re_search ascii_tab saved_pattern not_found_line"
    by (simp add: not_found_line_def ev)
  have err2: "re_search ascii_tab error_pattern not_found_line"
    by (simp add: not_found_line_def ev)
  from process_line_first_match_wins [OF refl ne, of init_parser]
    process_line_first_match_wins [OF strip_not_found_line ne2, of init_parser]
    saved err name nsaved2 err2
  show ?thesis
    by (simp add: init_parser_def ustr_def)
qed

text \<open>
  Claim C6, at the line \<open>swapped_line\<close>, where a right quote stands before the quoted
  path. Both delimiters are present and the line holds the quoted path \<open>a/b\<close>, yet
  \<open>_extract_filename\<close> returns the empty string: neither the final segment \<open>b\<close> nor
  the placeholder. The line reaches \<open>_extract_filename\<close> through \<open>process_line\<close>, as
  a saved file with an empty name.
\<close>

theorem extract_filename_swapped_quotes:
  "find_str swapped_line LQUOTE = 2 \<and> find_str swapped_line RQUOTE = 0
   \<and> extract_filename swapped_line = []
   \<and> extract_filename swapped_line \<noteq> ustr ''file''
   \<and> extract_filename swapped_line \<noteq> ustr ''b''
   \<and> fst (fst (process_line ascii_tab swapped_line init_parser)) =
       0x2705 # ustr '' FILE SAVED: '' @ [NEWLINE]"
proof -
  have s: "strip ascii_tab swapped_line = swapped_line"
    by (simp add: swapped_line_def strip_def ev)
  have saved: "re_search ascii_tab saved_pattern swapped_line"
    by (simp add: swapped_line_def ev)
  have name: "extract_filename swapped_line = []"
    by (simp add: swapped_line_def ev ev_str)
  have ne: "swapped_line \<noteq> []"
    by (simp add: swapped_line_def)
  have "fst (fst (process_line ascii_tab swapped_line init_parser)) =
       0x2705 # ustr '' FILE SAVED: '' @ [NEWLINE]"
    using s saved name ne by (simp add: process_line_def Let_def)
  moreover have "find_str swapped_line LQUOTE = 2 \<and> find_str swapped_line RQUOTE = 0"
    by (simp add: swapped_line_def ev find_str_def)
  ultimately show ?thesis
    using name by (simp add: ustr_def)
qed

lemma process_lines_files_mono:
  "downloaded_count p \<le> downloaded_count (process_lines tab ls p)"
proof (induction ls arbitrary: p)
  case Nil
  show ?case by simp
next
  case (Cons l ls)
  have "downloaded_count p \<le> downloaded_count (snd (process_line tab l p))"
    by (simp add: process_line_files)
  also have "\<dots> \<le> downloaded_count (process_lines tab ls (snd (process_line tab l p)))"
    by (rule Cons.IH)
  finally show ?case by simp
qed

lemma process_lines_errors_mono:
  "error_count p \<le> error_count (process_lines tab ls p)"
proof (induction ls arbitrary: p)
  case Nil
  show ?case by simp
next
  case (Cons l ls)
  have "error_count p \<le> error_count (snd (process_line tab l p))"
    by (simp add: process_line_errors)
  also have "\<dots> \<le> error_count (process_lines tab ls (snd (process_line tab l p)))"
    by (rule Cons.IH)
  finally show ?case by simp
qed

text \<open>
  Claim C8. Neither counter ever decreases: not in one \<open>process_line\<close> call, and so not
  over any sequence of calls on one parser. \<open>reset\<close> is what sets both back to zero.
\<close>

theorem counters_never_decrease:
  "downloaded_count p \<le> downloaded_count (snd (process_line tab l p))
   \<and> error_count p \<le> error_count (snd (process_line tab l p))
   \<and> downloaded_count p \<le> downloaded_count (process_lines tab ls p)
   \<and> error_count p \<le> error_count (process_lines tab ls p)
   \<and> downloaded_count (reset p) = 0 \<and> error_count (reset p) = 0"
  using process_lines_files_mono [of p tab ls] process_lines_errors_mono [of p tab ls]
  by (simp add: process_line_files process_line_errors reset_def)

text \<open>
  Claim C9. \<open>process_line\<close> reads nothing but the line and the parser's two counters.
  For one line, the display text and the change of each counter are the same whatever
  the counters were before; the snapshot is \<open>_get_stats\<close> of the counters after the
  call. So two calls with the same line and the same prior counters agree on the text,
  on the counter changes and on the snapshot.
\<close>

theorem process_line_deterministic:
  "fst (fst (process_line tab line p)) = fst (fst (process_line tab line q))
   \<and> downloaded_count (snd (process_line tab line p)) - downloaded_count p =
       downloaded_count (snd (process_line tab line q)) - downloaded_count q
   \<and> error_count (snd (process_line tab line p)) - error_count p =
       error_count (snd (process_line tab line q)) - error_count q
   \<and> snd (fst (process_line tab line p)) = get_stats (snd (process_line tab line p))"
proof -
  have "fst (fst (process_line tab line p)) = fst (fst (process_line tab line q))"
    by (simp add: process_line_def Let_def)
  then show ?thesis
    by (simp add: process_line_files process_line_errors process_line_snapshot)
qed

text \<open>
  Claim C10. The snapshot returned with a line is taken after the line's counter update:
  its \<open>files\<close> entry is the prior count plus one exactly when the line is reported as
  a saved file, its \<open>errors\<close> entry is the prior count plus one exactly when the line
  is reported as an error, and for a blank line or any other line both entries are the
  prior counts.
\<close>

theorem process_line_stats_after_update:
  "snd (fst (process_line tab raw p)) = get_stats (snd (process_line tab raw p))
   \<and> snd (fst (process_line tab raw p)) ''files'' =
       Some (downloaded_count p +
         (if strip tab raw \<noteq> [] \<and> re_search tab saved_pattern (strip tab raw)
          then 1 else 0))
   \<and> snd (fst (process_line tab raw p)) ''errors'' =
       Some (error_count p +
         (if strip tab raw \<noteq> [] \<and> \<not> re_search tab saved_pattern (strip tab raw)
             \<and> re_search tab error_pattern (strip tab raw)
          then 1 else 0))"
  by (simp add: process_line_snapshot get_stats_def process_line_files process_line_errors)

section \<open>Properties of the file manager\<close>

lemma parents_iff: "t \<in> set (parents p) \<longleftrightarrow> strict_prefix t p"
proof
  assume "t \<in> set (parents p)"
  then obtain n where n: "n < length p" and t: "t = take n p"
    by (auto simp: parents_def)
  have "prefix t p" unfolding t by (rule take_is_prefix)
  moreover have "t \<noteq> p" using n t by (metis length_take min.absorb4 nat_neq_iff)
  ultimately show "strict_prefix t p" by (simp add: strict_prefix_def)
next
  assume "strict_prefix t p"
  then obtain zs where p: "p = t @ zs" and "zs \<noteq> []"
    by (auto simp: strict_prefix_def prefix_def)
  then have "length t < length p" and "t = take (length t) p" by auto
  then show "t \<in> set (parents p)"
    unfolding parents_def by (metis (no_types, lifting) atLeastLessThan_iff image_eqI
        list.set_map set_rev set_upt zero_le)
qed

lemmas sim_ev = sim_os_def sim_abs_def sim_lookup_def sim_exists_def sim_is_dir_def
  sim_remove_def sim_rmtree_def sim_glob_def sim_stat_mtime_def sim_unlink_def
  posix_join_def posix_basename_def posix_dirname_def posix_normpath_def sim_urlparse_def
  sim_popen_def sim_readline_def sim_poll_def sim_signal_def sim_wait_def
  sim_make_archive_def STORAGE_def fresh_def sim_fm_def new_file_manager_def ENOENT_def
  startswith_def split_def scheme_char_def

lemma sim_fm_eq: "sim_fm = \<lparr> root = ustr ''storage'', temp_dir = ustr ''storage/temp_sites'',
    zip_dir = ustr ''storage/output_zips'' \<rparr>"
  by (simp add: sim_ev ustr_def SLASH_def)

lemma abs_temp: "sim_abs (temp_dir sim_fm) = STORAGE @ [ustr ''temp_sites'']"
  by (simp add: sim_fm_eq) (simp add: sim_ev ustr_def SLASH_def)

text \<open>
  Claim C1. When \<open>resolve\<close> returns for the temp directory and for the path, and the
  resolved temp directory is not a proper ancestor of the resolved path, then
  \<open>clear_temp_folder\<close> returns the world it was given, unchanged, with one security
  warning added to the log. The call returns a state and no exception. The test compares
  the components of the two resolved paths: \<open>parents\<close> lists proper prefixes of the
  component list, and the text of the path plays no part.
\<close>

theorem clear_temp_folder_outside:
  assumes "resolve os (fst s) (temp_dir fm) = Inr t"
    and "resolve os (fst s) path = Inr p"
    and "\<not> strict_prefix t p"
  shows "clear_temp_folder os fm path s = (fst s, snd s @ [SecurityWarning path])"
  using assms by (simp add: clear_temp_folder_def Let_def parents_iff)

text \<open>
  The theorem at \<open>escape_path\<close>, whose text starts with the text of the temp
  directory and whose resolved form is the output directory.
\<close>

theorem clear_temp_folder_outside_witness:
  "startswith escape_path (temp_dir sim_fm)
   \<and> clear_temp_folder sim_os sim_fm escape_path (fresh, []) = (fresh, [SecurityWarning escape_path])"
proof -
  have t: "resolve sim_os (fst (fresh, [])) (temp_dir sim_fm) = Inr (STORAGE @ [ustr ''temp_sites''])"
    by (simp add: sim_fm_eq) (simp add: sim_ev ustr_def SLASH_def)
  have p: "resolve sim_os (fst (fresh, [])) escape_path = Inr (STORAGE @ [ustr ''output_zips''])"
    by (simp add: sim_ev escape_path_def ustr_def SLASH_def)
  have n: "\<not> strict_prefix (STORAGE @ [ustr ''temp_sites'']) (STORAGE @ [ustr ''output_zips''])"
    by (simp add: STORAGE_def ustr_def)
  have "startswith escape_path (temp_dir sim_fm)"
    by (simp add: sim_fm_eq) (simp add: escape_path_def startswith_def ustr_def)
  with clear_temp_folder_outside [OF t p n] show ?thesis by simp
qed












section \<open>Properties of the engine\<close>




lemma abs_target: "sim_abs TARGET = SITE"
  by (simp add: sim_ev TARGET_def SITE_def ustr_def SLASH_def)




lemma stop_finally_process:
  "process (fst (snd (stop_finally os fm e r s))) = None"
  by (simp add: stop_finally_def Let_def)

lemma stop_except_process:
  "process (fst (snd (stop_except os fm e h ex s))) = None"
  by (simp add: stop_except_def stop_finally_process split: prod.splits exn.splits)

lemma stop_no_process: "process e = None \<Longrightarrow> stop os fm (e, w, log) = (None, e, w, log)"
  by (simp add: stop_def)

lemma stop_exited:
  "process e = Some h \<Longrightarrow> poll os w h = Some rc \<Longrightarrow> stop os fm (e, w, log) = (None, e, w, log)"
  by (simp add: stop_def)

lemma stop_after:
  "stop os fm st = (r, st') \<Longrightarrow> st' = st \<and> r = None \<or> process (fst st') = None"
  unfolding stop_def
  by (auto split: prod.splits option.splits if_splits
      dest: arg_cong [where f = "\<lambda>x. process (fst (snd x))"]
      simp: stop_finally_process stop_except_process)

text \<open>
  Claim C7. \<open>stop\<close> on an engine without a process, or whose process has an exit
  code, returns the state it was given and raises nothing. After any call of \<open>stop\<close>,
  a second call returns the state the first one left and raises nothing: it sends no
  signal and runs no cleanup.
\<close>

theorem stop_idempotent:
  "(process e = None \<or> (\<exists>h rc. process e = Some h \<and> poll os w h = Some rc)
      \<longrightarrow> stop os fm (e, w, log) = (None, e, w, log))
   \<and> stop os fm (snd (stop os fm st)) = (None, snd (stop os fm st))"
proof
  show "process e = None \<or> (\<exists>h rc. process e = Some h \<and> poll os w h = Some rc)
      \<longrightarrow> stop os fm (e, w, log) = (None, e, w, log)"
    by (auto simp: stop_no_process stop_exited)
next
  obtain r st' where s: "stop os fm st = (r, st')" by (cases "stop os fm st")
  obtain e' w' log' where st': "st' = (e', w', log')" by (cases st') auto
  from stop_after [OF s] show "stop os fm (snd (stop os fm st)) = (None, snd (stop os fm st))"
  proof
    assume "st' = st \<and> r = None"
    then show ?thesis using s by simp
  next
    assume "process (fst st') = None"
    then show ?thesis using s st' by (simp add: stop_no_process)
  qed
qed

lemma stop_running:
  "stop sim_os sim_fm (running_engine, running, []) =
     (None, running_engine\<lparr>process := None\<rparr>,
      running\<lparr>child := Some ([], -15), signals := [15]\<rparr>, [])"
  by (simp add: stop_def stop_finally_def cleanup_partial_files_def clear_temp_folder_def Let_def
        parents_iff sim_os_def abs_target abs_temp sim_exists_def sim_is_dir_def sim_lookup_def
        sim_poll_def sim_signal_def sim_wait_def running_engine_def running_def)
     (simp add: fresh_def SITE_def STORAGE_def ustr_def abs_target abs_temp
        sim_exists_def sim_is_dir_def sim_lookup_def sim_poll_def sim_signal_def sim_wait_def)

text \<open>
  The theorem at a running child: the first \<open>stop\<close> sends one signal, the
  second changes nothing; and at a child that has exited.
\<close>

theorem stop_idempotent_witness:
  "stop sim_os sim_fm (running_engine, running, []) =
     (None, running_engine\<lparr>process := None\<rparr>,
      running\<lparr>child := Some ([], -15), signals := [15]\<rparr>, [])
   \<and> stop sim_os sim_fm (running_engine\<lparr>process := None\<rparr>,
      running\<lparr>child := Some ([], -15), signals := [15]\<rparr>, []) =
     (None, running_engine\<lparr>process := None\<rparr>,
      running\<lparr>child := Some ([], -15), signals := [15]\<rparr>, [])
   \<and> stop sim_os sim_fm (running_engine, running\<lparr>child := Some ([], 0)\<rparr>, []) =
     (None, running_engine, running\<lparr>child := Some ([], 0)\<rparr>, [])"
proof -
  have a: "process running_engine = Some 1 \<and> poll sim_os (running\<lparr>child := Some ([], 0)\<rparr>) 1 = Some 0"
    by (simp add: running_engine_def sim_os_def sim_poll_def)
  from stop_idempotent [of running_engine sim_os "running\<lparr>child := Some ([], 0)\<rparr>" sim_fm "[]"
      "(running_engine, running, [])"] a stop_running
  show ?thesis by auto
qed

section \<open>Properties of \<open>process_download\<close>\<close>

















end
